theory Spec2Isabelle
  imports Main "HOL-Library.Word" "HOL-Library.AList"
begin

section \<open>Stored values\<close>

text \<open>
  Both seed scripts talk to a document store. A stored value is a BSON value; a document
  is a Python dict, kept as an association list in insertion order. Python's unbounded
  integers are \<open>int\<close>, a \<open>datetime\<close> is the number of milliseconds since the epoch, a
  \<open>str\<close> is a \<open>string\<close>.
\<close>

datatype object_id = ObjectId (binary: "8 word list")

datatype bson =
    BNull
  | BBool bool
  | BInt int
  | BStr string
  | BDate int
  | BOid object_id
  | BArr "bson list"
  | BDoc "(string \<times> bson) list"

type_synonym document = "(string \<times> bson) list"

datatype error =
    SystemExit int
  | InvalidId string
  | WriteError nat string
  | DuplicateKeyError string

section \<open>Reference identifiers: \<open>bson.ObjectId\<close>\<close>

definition hex_val :: "char \<Rightarrow> nat option" where
  "hex_val c =
     (let n = (of_char c :: nat) in
      if 48 \<le> n \<and> n \<le> 57 then Some (n - 48)
      else if 97 \<le> n \<and> n \<le> 102 then Some (n - 87)
      else if 65 \<le> n \<and> n \<le> 70 then Some (n - 55)
      else None)"

fun fromhex :: "string \<Rightarrow> 8 word list option" where
  "fromhex [] = Some []"
| "fromhex [c] = None"
| "fromhex (a # b # cs) =
     (case hex_val a of
        None \<Rightarrow> None
      | Some h \<Rightarrow>
          (case hex_val b of
             None \<Rightarrow> None
           | Some l \<Rightarrow>
               (case fromhex cs of
                  None \<Rightarrow> None
                | Some bs \<Rightarrow> Some (of_nat (16 * h + l) # bs))))"

text \<open>
  Modelled from the spec: the constructor \<open>ObjectId(s)\<close> of the \<open>bson\<close> package, which
  is not part of the repository. The spec's Reference Validator accepts a candidate only
  if it is "a fixed-length hexadecimal token"; for a \<open>str\<close> argument the package takes
  exactly the strings of 24 hexadecimal digits, keeps their 12 bytes, and raises
  \<open>InvalidId\<close> otherwise.
\<close>

definition ObjectId_init :: "string \<Rightarrow> error + object_id" where
  "ObjectId_init oid =
     (if length oid = 24 then
        (case fromhex oid of
           Some bs \<Rightarrow> Inr (ObjectId bs)
         | None \<Rightarrow> Inl (InvalidId oid))
      else Inl (InvalidId oid))"

text \<open>The spec's words, for comparison: a token of fixed length 24 made of hexadecimal digits.\<close>

definition is_hex_digit :: "char \<Rightarrow> bool" where
  "is_hex_digit c = (hex_val c \<noteq> None)"

definition well_formed_token :: "string \<Rightarrow> bool" where
  "well_formed_token s = (length s = 24 \<and> list_all is_hex_digit s)"

text \<open>\<open>str(oid)\<close>: the 24 lowercase hexadecimal digits of the 12 bytes.\<close>

definition hex_digit :: "nat \<Rightarrow> char" where
  "hex_digit n = (if n < 10 then char_of (48 + n) else char_of (87 + n))"

fun hexlify :: "8 word list \<Rightarrow> string" where
  "hexlify [] = []"
| "hexlify (b # bs) = hex_digit (unat b div 16) # hex_digit (unat b mod 16) # hexlify bs"

definition oid_str :: "object_id \<Rightarrow> string" where
  "oid_str oid = hexlify (binary oid)"

section \<open>\<open>seed_mongo_user.py\<close>: the starred-item loop\<close>

definition warn_starred :: "string \<Rightarrow> string" where
  "warn_starred s = ''WARN: skipping invalid ObjectId in --starred: '' @ s"

text \<open>
  The \<open>for s in args.starred\<close> loop, with the list built so far and the lines printed so
  far as accumulators. \<open>except Exception\<close> catches every failure of the constructor.
\<close>

fun starred_loop :: "string list \<Rightarrow> object_id list \<Rightarrow> string list \<Rightarrow> object_id list \<times> string list" where
  "starred_loop [] starred out = (starred, out)"
| "starred_loop (s # ss) starred out =
     (case ObjectId_init s of
        Inr oid \<Rightarrow> starred_loop ss (starred @ [oid]) out
      | Inl e \<Rightarrow> starred_loop ss starred (out @ [warn_starred s]))"

section \<open>The storage collaborator\<close>

text \<open>
  The document store itself (MongoDB behind \<open>pymongo\<close>) is outside the repository. The
  scripts use four of its operations: \<open>create_index\<close>, \<open>update_one\<close> with \<open>upsert=True\<close>,
  \<open>find_one_and_update\<close> with \<open>$inc\<close>, and \<open>insert_one\<close>. They are modelled here as far
  as the scripts use them. An update document such as
  \<open>{"$set": doc, "$setOnInsert": {"userId": user_id}}\<close> is the list of its operators, each
  with the fields it names.
\<close>

type_synonym update = "(string \<times> document) list"

record collection =
  docs :: "document list"
  unique_indexes :: "(string \<times> string) list"

record update_result =
  matched_count :: nat
  upserted_id :: "object_id option"

text \<open>An equality filter: every named field holds the given value (an array field matches
  by membership, a missing field matches \<open>null\<close>).\<close>

definition field_matches :: "document \<Rightarrow> string \<times> bson \<Rightarrow> bool" where
  "field_matches d kv =
     (case map_of d (fst kv) of
        None \<Rightarrow> snd kv = BNull
      | Some (BArr xs) \<Rightarrow> BArr xs = snd kv \<or> List.member xs (snd kv)
      | Some w \<Rightarrow> w = snd kv)"

definition matches :: "document \<Rightarrow> document \<Rightarrow> bool" where
  "matches flt d = list_all (field_matches d) flt"

text \<open>The field paths an update names, operator by operator.\<close>

definition update_paths :: "update \<Rightarrow> string list" where
  "update_paths u = concat (map (\<lambda>op. map fst (snd op)) u)"

text \<open>The store refuses an update in which two operators name the same path (error 40,
  ConflictingUpdateOperators), before it looks at any document.\<close>

definition conflicting :: "update \<Rightarrow> bool" where
  "conflicting u = (\<not> distinct (update_paths u))"

definition operator_fields :: "string \<Rightarrow> update \<Rightarrow> document" where
  "operator_fields name u = (case map_of u name of None \<Rightarrow> [] | Some fs \<Rightarrow> fs)"

definition set_fields :: "document \<Rightarrow> document \<Rightarrow> document" where
  "set_fields fs d = fold (\<lambda>kv. AList.update (fst kv) (snd kv)) fs d"

text \<open>What a valid update does to a matched document: \<open>$set\<close> is applied,
  \<open>$setOnInsert\<close> is not.\<close>

definition apply_on_match :: "update \<Rightarrow> document \<Rightarrow> document" where
  "apply_on_match u d = set_fields (operator_fields ''$set'' u) d"

text \<open>What it inserts when nothing matches: a fresh \<open>_id\<close>, the filter's fields, then
  \<open>$set\<close> and \<open>$setOnInsert\<close>.\<close>

definition apply_on_insert :: "object_id \<Rightarrow> document \<Rightarrow> update \<Rightarrow> document" where
  "apply_on_insert oid flt u =
     set_fields (operator_fields ''$setOnInsert'' u)
       (set_fields (operator_fields ''$set'' u)
          (set_fields flt [(''_id'', BOid oid)]))"

fun update_first :: "('a \<Rightarrow> bool) \<Rightarrow> ('a \<Rightarrow> 'a) \<Rightarrow> 'a list \<Rightarrow> 'a list option" where
  "update_first P f [] = None"
| "update_first P f (d # ds) =
     (if P d then Some (f d # ds)
      else (case update_first P f ds of None \<Rightarrow> None | Some ds' \<Rightarrow> Some (d # ds')))"

definition unique_ok :: "document list \<Rightarrow> string \<Rightarrow> bool" where
  "unique_ok ds field = distinct (map (\<lambda>d. map_of d field) ds)"

definition indexes_ok :: "collection \<Rightarrow> bool" where
  "indexes_ok c = list_all (\<lambda>ix. unique_ok (docs c) (snd ix)) (unique_indexes c)"

definition create_index :: "collection \<Rightarrow> string \<Rightarrow> string \<Rightarrow> error + collection" where
  "create_index c field name =
     (if List.member (unique_indexes c) (name, field) then Inr c
      else if unique_ok (docs c) field
      then Inr (c\<lparr>unique_indexes := unique_indexes c @ [(name, field)]\<rparr>)
      else Inl (DuplicateKeyError name))"

definition update_one ::
  "collection \<Rightarrow> object_id \<Rightarrow> document \<Rightarrow> update \<Rightarrow> bool \<Rightarrow> error + update_result \<times> collection" where
  "update_one c oid flt u upsert =
     (if conflicting u then Inl (WriteError 40 ''ConflictingUpdateOperators'')
      else
        (case update_first (matches flt) (apply_on_match u) (docs c) of
           Some ds \<Rightarrow>
             (let c' = c\<lparr>docs := ds\<rparr> in
              if indexes_ok c'
              then Inr (\<lparr>matched_count = 1, upserted_id = None\<rparr>, c')
              else Inl (DuplicateKeyError ''update''))
         | None \<Rightarrow>
             if upsert then
               (let c' = c\<lparr>docs := docs c @ [apply_on_insert oid flt u]\<rparr> in
                if indexes_ok c'
                then Inr (\<lparr>matched_count = 0, upserted_id = Some oid\<rparr>, c')
                else Inl (DuplicateKeyError ''insert''))
             else Inr (\<lparr>matched_count = 0, upserted_id = None\<rparr>, c)))"

text \<open>The counters collection holds documents \<open>{"_id": name, "seq": n}\<close>: a map from the
  counter's name to its integer. \<open>find_one_and_update\<close> with \<open>{"$inc": {"seq": 1}}\<close>,
  \<open>upsert=True\<close> and \<open>ReturnDocument.AFTER\<close> adds one to the stored integer, starting
  from 0 when the counter is absent, and returns the document as it is afterwards; it is
  one operation of the store.\<close>

type_synonym counters = "string \<rightharpoonup> int"

definition find_one_and_update_inc :: "counters \<Rightarrow> string \<Rightarrow> int \<times> counters" where
  "find_one_and_update_inc cs name =
     (let seq = (case cs name of None \<Rightarrow> 0 | Some n \<Rightarrow> n) + 1
      in (seq, cs(name \<mapsto> seq)))"

text \<open>\<open>insert_one\<close> gives the document an \<open>_id\<close> when it has none and appends it.\<close>

definition insert_one :: "document list \<Rightarrow> object_id \<Rightarrow> document \<Rightarrow> document list" where
  "insert_one ds oid d =
     ds @ [if map_of d ''_id'' = None then d @ [(''_id'', BOid oid)] else d]"

section \<open>\<open>seed_mongo_user.py\<close>\<close>

text \<open>The parsed command line (\<open>argparse.Namespace\<close>); parsing itself is not modelled.\<close>

record args =
  email :: string
  password :: string
  username :: string
  phone_num :: string
  address :: string
  pfp_url :: "string option"
  notification :: bool
  starred :: "string list"
  blocked :: "string list"
  premade :: "string list"
  signup_date :: string
  user_id :: "string option"

text \<open>What a run reads from outside: the environment variables, the clock, the random
  sources of \<open>uuid4\<close> and \<open>gensalt\<close>, and the \<open>_id\<close> the store would give a new
  document.\<close>

record world =
  MONGODB_URI :: "string option"
  MONGO_URI :: "string option"
  utcnow :: int
  uuid4_hex :: string
  urandom :: "8 word list"
  next_oid :: object_id

text \<open>The \<open>bcrypt\<close> package is a parameter: \<open>gensalt\<close> takes the number of rounds and
  the random bytes, \<open>hashpw\<close> the password and the salt.\<close>

record bcrypt_module =
  gensalt :: "nat \<Rightarrow> 8 word list \<Rightarrow> string"
  hashpw :: "string \<Rightarrow> string \<Rightarrow> string"

text \<open>Python's \<open>x or y\<close> on an optional string: \<open>None\<close> and the empty string are false.\<close>

definition truthy :: "string option \<Rightarrow> bool" where
  "truthy x = (case x of None \<Rightarrow> False | Some s \<Rightarrow> s \<noteq> [])"

definition str_or_none :: "string option \<Rightarrow> bson" where
  "str_or_none x = (case x of None \<Rightarrow> BNull | Some s \<Rightarrow> BStr s)"

text \<open>Lowering a string of ASCII characters: the letters A to Z are lowered, every other
  character is left as it is.\<close>

definition lower_char :: "char \<Rightarrow> char" where
  "lower_char c =
     (let n = (of_char c :: nat) in if 65 \<le> n \<and> n \<le> 90 then char_of (n + 32) else c)"

definition ascii_lower :: "string \<Rightarrow> string" where
  "ascii_lower s = map lower_char s"

text \<open>\<open>str.lower\<close>. A \<open>str\<close> is kept as the bytes of its UTF-8 encoding. On a string of
  ASCII characters the method lowers the letters A to Z and nothing else. On a string
  with characters beyond ASCII it follows the Unicode tables of the Python runtime, which
  are outside the repository: they are the parameter \<open>ul\<close>, the function those tables
  give on such strings.\<close>

definition is_ascii :: "char \<Rightarrow> bool" where
  "is_ascii c = ((of_char c :: nat) < 128)"

definition str_lower :: "(string \<Rightarrow> string) \<Rightarrow> string \<Rightarrow> string" where
  "str_lower ul s = (if list_all is_ascii s then ascii_lower s else ul s)"

definition get_client :: "world \<Rightarrow> error + string" where
  "get_client w =
     (let uri = (if truthy (MONGODB_URI w) then MONGODB_URI w else MONGO_URI w) in
      if \<not> truthy uri then Inl (SystemExit 1)
      else (case uri of None \<Rightarrow> Inl (SystemExit 1) | Some s \<Rightarrow> Inr s))"

text \<open>\<open>ensure_indexes\<close>: two \<open>create_index\<close> calls; the collection as the calls leave
  it, and the error of the call that failed, if one did.\<close>

definition ensure_indexes :: "collection \<Rightarrow> collection \<times> error option" where
  "ensure_indexes users =
     (case create_index users ''email'' ''uniq_email'' of
        Inl e \<Rightarrow> (users, Some e)
      | Inr users1 \<Rightarrow>
          (case create_index users1 ''userId'' ''idx_userId'' of
             Inl e \<Rightarrow> (users1, Some e)
           | Inr users2 \<Rightarrow> (users2, None)))"

text \<open>\<open>user_id = args.user_id or f"usr_{uuid.uuid4().hex[:12]}"\<close>, from the option given
  on the command line and the 32 hexadecimal digits of a fresh \<open>uuid4\<close>.\<close>

definition resolve_user_id :: "string option \<Rightarrow> string \<Rightarrow> string" where
  "resolve_user_id given hex =
     (if truthy given then (case given of Some u \<Rightarrow> u | None \<Rightarrow> [])
      else ''usr_'' @ take 12 hex)"

text \<open>The dict \<open>doc\<close> of \<open>main\<close>, field by field in the order of the source, from the
  arguments and the local variables \<open>now\<close>, \<open>user_id\<close>, \<open>pw_hash\<close> and \<open>starred\<close>
  (\<open>ul\<close> is the parameter of \<open>str_lower\<close>).\<close>

definition build_doc ::
  "(string \<Rightarrow> string) \<Rightarrow> args \<Rightarrow> int \<Rightarrow> string \<Rightarrow> string \<Rightarrow> object_id list \<Rightarrow> document" where
  "build_doc ul a now uid pw_hash starred_ids =
     [(''userId'', BStr uid),
      (''username'', BStr (username a)),
      (''email'', BStr (str_lower ul (email a))),
      (''password'', BStr pw_hash),
      (''phone_num'', BStr (phone_num a)),
      (''address'', BStr (address a)),
      (''signup_date'', BStr (signup_date a)),
      (''suggested_num'', BInt 0),
      (''starred_item'', BArr (map BOid starred_ids)),
      (''messages'', BArr []),
      (''premade_messages'', BArr (map BStr (premade a))),
      (''notification'', BBool (notification a)),
      (''blocked_users'', BArr (map BStr (blocked a))),
      (''pfp'', BDoc [(''url'', str_or_none (pfp_url a)),
                     (''storage'', if truthy (pfp_url a) then BStr ''url'' else BNull)]),
      (''createdAt'', BDate now),
      (''updatedAt'', BDate now)]"

text \<open>The two arguments of the \<open>update_one\<close> call: \<open>{"email": doc["email"]}\<close> and
  \<open>{"$set": doc, "$setOnInsert": {"userId": user_id}}\<close>. Every \<open>doc\<close> that \<open>main\<close>
  builds has the key \<open>email\<close>, so the lookup does not raise.\<close>

definition upsert_filter :: "document \<Rightarrow> document" where
  "upsert_filter doc =
     [(''email'', (case map_of doc ''email'' of Some v \<Rightarrow> v | None \<Rightarrow> BNull))]"

definition upsert_update :: "document \<Rightarrow> string \<Rightarrow> update" where
  "upsert_update doc uid = [(''$set'', doc), (''$setOnInsert'', [(''userId'', BStr uid)])]"

definition report :: "update_result \<Rightarrow> string \<Rightarrow> string \<Rightarrow> string" where
  "report res doc_email uid =
     (case upserted_id res of
        Some oid \<Rightarrow>
          ''Inserted user with _id='' @ oid_str oid @ '' email='' @ doc_email @ '' userId='' @ uid
      | None \<Rightarrow> ''Updated user email='' @ doc_email @ '' userId='' @ uid)"

text \<open>The document of a run, as \<open>main\<close> assembles it from the arguments and the outside
  world.\<close>

definition main_doc :: "(string \<Rightarrow> string) \<Rightarrow> bcrypt_module \<Rightarrow> args \<Rightarrow> world \<Rightarrow> document" where
  "main_doc ul bc a w =
     build_doc ul a (utcnow w) (resolve_user_id (user_id a) (uuid4_hex w))
       (hashpw bc (password a) (gensalt bc 12 (urandom w)))
       (fst (starred_loop (starred a) [] []))"

text \<open>\<open>main\<close>: the users collection before the run goes in; the lines printed on
  standard output, the collection as the run leaves it, and the error that ended the
  run (\<open>None\<close> when it reached its last line) come out.\<close>

definition main ::
  "(string \<Rightarrow> string) \<Rightarrow> bcrypt_module \<Rightarrow> args \<Rightarrow> world \<Rightarrow> collection \<Rightarrow> string list \<times> collection \<times> error option" where
  "main ul bc a w users =
     (case get_client w of
        Inl e \<Rightarrow> ([], users, Some e)
      | Inr client \<Rightarrow>
          (case ensure_indexes users of
             (users1, Some e) \<Rightarrow> ([], users1, Some e)
           | (users1, None) \<Rightarrow>
               (let uid = resolve_user_id (user_id a) (uuid4_hex w);
                    out = snd (starred_loop (starred a) [] []);
                    doc = main_doc ul bc a w
                in
                  case update_one users1 (next_oid w) (upsert_filter doc) (upsert_update doc uid) True of
                    Inl e \<Rightarrow> (out, users1, Some e)
                  | Inr (res, users2) \<Rightarrow>
                      (out @ [report res (str_lower ul (email a)) uid, ''Done.''], users2, None))))"

section \<open>\<open>seed_uploaded_card.py\<close>\<close>

record db =
  counters_coll :: counters
  uploadedCards :: "document list"

text \<open>\<open>next_seq\<close>: \<open>int(res.get("seq") or 1)\<close> of the document found and incremented; a
  \<open>seq\<close> of 0 is false in Python, so \<open>or\<close> replaces it by 1.\<close>

definition next_seq :: "db \<Rightarrow> string \<Rightarrow> int \<times> db" where
  "next_seq d name =
     (let res = find_one_and_update_inc (counters_coll d) name
      in ((if fst res \<noteq> 0 then fst res else 1), d\<lparr>counters_coll := snd res\<rparr>))"

text \<open>The integer a counter holds, 0 when the counter does not exist yet.\<close>

definition stored_seq :: "db \<Rightarrow> string \<Rightarrow> int" where
  "stored_seq d name = (case counters_coll d name of None \<Rightarrow> 0 | Some n \<Rightarrow> n)"

definition card_doc :: "int \<Rightarrow> int \<Rightarrow> document" where
  "card_doc seq now =
     [(''id'', BInt seq),
      (''category'', BStr ''pokemon''),
      (''card_name'', BStr ''Pikachu (Illustration Rare)''),
      (''rarity'', BStr ''Illustration Rare''),
      (''language'', BStr ''en''),
      (''set'', BStr ''SVP Black Star Promos''),
      (''card_num'', BStr ''SVP 085''),
      (''createdAt'', BDate now)]"

text \<open>\<open>main\<close> of the card script: the database before the run goes in, the database after
  the run comes out.\<close>

definition card_main :: "world \<Rightarrow> db \<Rightarrow> db" where
  "card_main w d =
     (let r = next_seq d ''uploadedCards'';
          doc = card_doc (fst r) (utcnow w)
      in (snd r)\<lparr>uploadedCards := insert_one (uploadedCards (snd r)) (next_oid w) doc\<rparr>)"

text \<open>Runs of the card script one after the other, each in its own world.\<close>

fun card_runs :: "world list \<Rightarrow> db \<Rightarrow> db" where
  "card_runs [] d = d"
| "card_runs (w # ws) d = card_runs ws (card_main w d)"

text \<open>Calls of \<open>next_seq\<close> one after the other for one name: the values returned, in
  order, and the database after the last call.\<close>

fun next_seq_calls :: "nat \<Rightarrow> db \<Rightarrow> string \<Rightarrow> int list \<times> db" where
  "next_seq_calls 0 d name = ([], d)"
| "next_seq_calls (Suc n) d name =
     (let r = next_seq d name; rs = next_seq_calls n (snd r) name
      in (fst r # fst rs, snd rs))"

section \<open>Histories of the counter\<close>

text \<open>The repository touches the counters collection through \<open>next_seq\<close> only, called
  directly or by a run of the card script. A database the scripts can have produced is
  the result of a list of such calls on a database without counters.\<close>

datatype call = NextSeq string | CardMain world

fun perform :: "call \<Rightarrow> db \<Rightarrow> db" where
  "perform (NextSeq name) d = snd (next_seq d name)"
| "perform (CardMain w) d = card_main w d"

fun run_calls :: "call list \<Rightarrow> db \<Rightarrow> db" where
  "run_calls [] d = d"
| "run_calls (c # cs) d = run_calls cs (perform c d)"

definition fresh_db :: "document list \<Rightarrow> db" where
  "fresh_db cards = \<lparr>counters_coll = Map.empty, uploadedCards = cards\<rparr>"

section \<open>Emails that differ only in letter case\<close>

text \<open>The spec's words, for comparison with \<open>str_lower\<close>: two characters are the same
  but for letter case when they are equal or are the capital and the small form of one
  letter of A to Z.\<close>

definition case_variant :: "char \<Rightarrow> char \<Rightarrow> bool" where
  "case_variant c d =
     (let m = (of_char c :: nat); n = (of_char d :: nat) in
      c = d \<or> (65 \<le> m \<and> m \<le> 90 \<and> n = m + 32) \<or> (65 \<le> n \<and> n \<le> 90 \<and> m = n + 32))"

section \<open>A concrete command line\<close>

text \<open>One parsed command line, for instantiating the theorems below: no profile image, no
  forced identifier, a mixed-case email.\<close>

definition example_args :: args where
  "example_args =
     \<lparr>email = ''A@x.com'', password = ''Test1234!'', username = ''test-user'',
      phone_num = ''010-0000-0000'', address = ''Seoul 123'', pfp_url = None,
      notification = True, starred = [], blocked = [], premade = [''hello''],
      signup_date = ''2025/01/01'', user_id = None\<rparr>"

section \<open>Properties of the reference validator and the starred-item loop\<close>

lemma fromhex_Some_iff:
  "(fromhex s \<noteq> None) = (even (length s) \<and> list_all is_hex_digit s)"
proof (induction s rule: fromhex.induct)
  case 1
  show ?case by simp
next
  case (2 c)
  show ?case by simp
next
  case (3 a b cs)
  show ?case
  proof (cases "hex_val a")
    case None
    then show ?thesis by (simp add: is_hex_digit_def)
  next
    case Sa: (Some h)
    show ?thesis
    proof (cases "hex_val b")
      case None
      then show ?thesis using Sa by (simp add: is_hex_digit_def)
    next
      case Sb: (Some l)
      show ?thesis using 3 [OF Sa Sb] Sa Sb
        by (cases "fromhex cs") (simp_all add: is_hex_digit_def)
    qed
  qed
qed

lemma ObjectId_init_Inr_iff:
  "(\<exists>oid. ObjectId_init s = Inr oid) = well_formed_token s"
  using fromhex_Some_iff [of s]
  by (auto simp: ObjectId_init_def well_formed_token_def split: option.splits)

lemma starred_loop_acc:
  "starred_loop xs acc out =
     (acc @ fst (starred_loop xs [] []), out @ snd (starred_loop xs [] []))"
proof (induction xs arbitrary: acc out)
  case Nil
  show ?case by simp
next
  case (Cons x xs)
  show ?case
  proof (cases "ObjectId_init x")
    case (Inl e)
    then show ?thesis
      using Cons [of acc "out @ [warn_starred x]"] Cons [of "[]" "[warn_starred x]"] by simp
  next
    case (Inr oid)
    then show ?thesis
      using Cons [of "acc @ [oid]" out] Cons [of "[oid]" "[]"] by simp
  qed
qed

lemma starred_loop_survivors:
  "map Inr (fst (starred_loop xs [] [])) = map ObjectId_init (filter well_formed_token xs)"
proof (induction xs)
  case Nil
  show ?case by simp
next
  case (Cons x xs)
  show ?case
  proof (cases "well_formed_token x")
    case True
    then obtain oid where "ObjectId_init x = Inr oid" using ObjectId_init_Inr_iff by blast
    then show ?thesis using True Cons starred_loop_acc [of xs "[oid]" "[]"] by simp
  next
    case False
    then obtain e where "ObjectId_init x = Inl e" using ObjectId_init_Inr_iff [of x]
      by (cases "ObjectId_init x") auto
    then show ?thesis using False Cons starred_loop_acc [of xs "[]" "[warn_starred x]"] by simp
  qed
qed

lemma starred_loop_warnings:
  "snd (starred_loop xs [] []) = map warn_starred (filter (\<lambda>s. \<not> well_formed_token s) xs)"
proof (induction xs)
  case Nil
  show ?case by simp
next
  case (Cons x xs)
  show ?case
  proof (cases "well_formed_token x")
    case True
    then obtain oid where "ObjectId_init x = Inr oid" using ObjectId_init_Inr_iff by blast
    then show ?thesis using True Cons starred_loop_acc [of xs "[oid]" "[]"] by simp
  next
    case False
    then obtain e where "ObjectId_init x = Inl e" using ObjectId_init_Inr_iff [of x]
      by (cases "ObjectId_init x") auto
    then show ?thesis using False Cons starred_loop_acc [of xs "[]" "[warn_starred x]"] by simp
  qed
qed

lemma hex_digit_hex_val:
  assumes "hex_val c = Some h"
  shows "hex_digit h = lower_char c" and "h < 16"
proof -
  define n where "n = (of_char c :: nat)"
  have c: "c = char_of n" by (simp add: n_def)
  have h: "(48 \<le> n \<and> n \<le> 57 \<and> h = n - 48) \<or> (97 \<le> n \<and> n \<le> 102 \<and> h = n - 87)
      \<or> (65 \<le> n \<and> n \<le> 70 \<and> h = n - 55)"
    using assms unfolding hex_val_def n_def [symmetric] Let_def
    by (auto split: if_splits)
  then show "h < 16" by auto
  from h have "hex_digit h = (if 65 \<le> n \<and> n \<le> 90 then char_of (n + 32) else char_of n)"
    unfolding hex_digit_def
    by (auto intro!: arg_cong [where f = char_of])
  then show "hex_digit h = lower_char c"
    unfolding lower_char_def Let_def n_def [symmetric] using c by simp
qed

lemma hexlify_fromhex:
  "fromhex s = Some bs \<Longrightarrow> hexlify bs = ascii_lower s"
proof (induction s arbitrary: bs rule: fromhex.induct)
  case 1
  then show ?case by (simp add: ascii_lower_def)
next
  case (2 c)
  then show ?case by simp
next
  case (3 a b cs)
  from "3.prems" obtain h l bs' where
    ha: "hex_val a = Some h" and hb: "hex_val b = Some l" and
    hc: "fromhex cs = Some bs'" and bs: "bs = of_nat (16 * h + l) # bs'"
    by (auto split: option.splits)
  have lt: "h < 16" "l < 16" using hex_digit_hex_val(2) ha hb by blast+
  define x :: "8 word" where "x = of_nat (16 * h + l)"
  have "unat x = (16 * h + l) mod 2 ^ LENGTH(8)"
    unfolding x_def by (rule unat_of_nat)
  then have u: "unat x div 16 = h" "unat x mod 16 = l" using lt by simp_all
  have "hexlify bs' = ascii_lower cs" using "3.IH" [OF ha hb hc] .
  then have "hexlify (x # bs') = ascii_lower (a # b # cs)"
    using hex_digit_hex_val(1) [OF ha] hex_digit_hex_val(1) [OF hb]
    by (simp add: u ascii_lower_def)
  then show ?case unfolding bs x_def .
qed

lemma oid_str_ObjectId_init:
  "ObjectId_init s = Inr oid \<Longrightarrow> oid_str oid = ascii_lower s"
  by (auto simp: ObjectId_init_def oid_str_def hexlify_fromhex split: if_splits option.splits)

lemma starred_loop_strs:
  "map oid_str (fst (starred_loop xs [] [])) = map ascii_lower (filter well_formed_token xs)"
proof -
  define f :: "error + object_id \<Rightarrow> string"
    where "f r = (case r of Inr oid \<Rightarrow> oid_str oid | Inl e \<Rightarrow> [])" for r
  have "map f (map Inr (fst (starred_loop xs [] []))) = map f (map ObjectId_init (filter well_formed_token xs))"
    by (simp only: starred_loop_survivors)
  moreover have "f (Inr oid) = oid_str oid" for oid by (simp add: f_def)
  moreover have "well_formed_token s \<Longrightarrow> f (ObjectId_init s) = ascii_lower s" for s
    using ObjectId_init_Inr_iff [of s] oid_str_ObjectId_init by (auto simp: f_def)
  ultimately show ?thesis by (simp add: comp_def cong: map_cong)
qed

text \<open>
  C5. For every list of reference strings given with \<open>--starred\<close>, the loop keeps exactly
  the well-formed tokens (24 hexadecimal digits), converted to identifiers, in the order
  of the input; it prints one warning line for each rejected element, in order, and
  always comes to its end, so the run goes on to assemble the document, whose
  \<open>starred_item\<close> field is the list kept. For the input
  \<open>["deadbeefdeadbeefdeadbeef", "not-an-id", "abad1deaabad1deaabad1dea"]\<close> the list kept
  is the first and the third token, in that order, and there is one warning, for the
  second.
\<close>

theorem starred_filtering:
  "map Inr (fst (starred_loop xs [] [])) = map ObjectId_init (filter well_formed_token xs)
   \<and> map oid_str (fst (starred_loop xs [] [])) = map ascii_lower (filter well_formed_token xs)
   \<and> snd (starred_loop xs [] []) = map warn_starred (filter (\<lambda>s. \<not> well_formed_token s) xs)
   \<and> map_of (main_doc ul bc (a\<lparr>starred := xs\<rparr>) w) ''starred_item''
       = Some (BArr (map BOid (fst (starred_loop xs [] []))))
   \<and> map oid_str (fst (starred_loop
         [''deadbeefdeadbeefdeadbeef'', ''not-an-id'', ''abad1deaabad1deaabad1dea''] [] []))
       = [''deadbeefdeadbeefdeadbeef'', ''abad1deaabad1deaabad1dea'']
   \<and> snd (starred_loop
         [''deadbeefdeadbeefdeadbeef'', ''not-an-id'', ''abad1deaabad1deaabad1dea''] [] [])
       = [''WARN: skipping invalid ObjectId in --starred: not-an-id'']"
proof -
  have doc: "map_of (main_doc ul bc (a\<lparr>starred := xs\<rparr>) w) ''starred_item''
      = Some (BArr (map BOid (fst (starred_loop xs [] []))))"
    by (simp add: main_doc_def build_doc_def)
  have ex1: "map oid_str (fst (starred_loop
         [''deadbeefdeadbeefdeadbeef'', ''not-an-id'', ''abad1deaabad1deaabad1dea''] [] []))
       = [''deadbeefdeadbeefdeadbeef'', ''abad1deaabad1deaabad1dea'']"
    by code_simp
  have ex2: "snd (starred_loop
         [''deadbeefdeadbeefdeadbeef'', ''not-an-id'', ''abad1deaabad1deaabad1dea''] [] [])
       = [''WARN: skipping invalid ObjectId in --starred: not-an-id'']"
    by (simp add: ObjectId_init_def hex_val_def warn_starred_def)
  show ?thesis
    using starred_loop_survivors [of xs] starred_loop_strs [of xs] starred_loop_warnings [of xs]
      doc ex1 ex2
    by blast
qed

section \<open>Properties of the user upsert\<close>

lemma set_fields_map_of:
  "map_of (set_fields fs d) k =
     (case map_of (rev fs) k of Some v \<Rightarrow> Some v | None \<Rightarrow> map_of d k)"
  unfolding set_fields_def
proof (induction fs arbitrary: d)
  case Nil
  show ?case by simp
next
  case (Cons kv fs)
  show ?case
    by (simp add: Cons update_conv' map_add_def split: option.splits)
qed

lemma build_doc_keys:
  "map fst (build_doc ul a now uid pw st) =
     [''userId'', ''username'', ''email'', ''password'', ''phone_num'', ''address'',
      ''signup_date'', ''suggested_num'', ''starred_item'', ''messages'',
      ''premade_messages'', ''notification'', ''blocked_users'', ''pfp'', ''createdAt'',
      ''updatedAt'']"
  by (simp add: build_doc_def)

lemma upsert_update_conflicting:
  "conflicting (upsert_update (build_doc ul a now uid pw st) uid')"
  by (simp add: conflicting_def update_paths_def upsert_update_def build_doc_keys)

lemma update_one_rejected:
  "update_one c oid flt (upsert_update (build_doc ul a now uid pw st) uid') up
     = Inl (WriteError 40 ''ConflictingUpdateOperators'')"
  by (simp add: update_one_def upsert_update_conflicting)

lemma main_error:
  "snd (snd (main ul bc a w users)) =
     (case get_client w of
        Inl e \<Rightarrow> Some e
      | Inr client \<Rightarrow>
          (case snd (ensure_indexes users) of
             Some e \<Rightarrow> Some e
           | None \<Rightarrow> Some (WriteError 40 ''ConflictingUpdateOperators'')))"
  by (simp add: main_def main_doc_def update_one_rejected Let_def
      split: sum.splits prod.splits option.splits)

lemma create_index_docs: "create_index c f n = Inr c' \<Longrightarrow> docs c' = docs c"
  by (auto simp: create_index_def split: if_splits)

lemma ensure_indexes_docs: "docs (fst (ensure_indexes users)) = docs users"
proof (cases "create_index users ''email'' ''uniq_email''")
  case (Inl e)
  then show ?thesis by (simp add: ensure_indexes_def)
next
  case (Inr u1)
  have d1: "docs u1 = docs users" by (rule create_index_docs [OF Inr])
  show ?thesis
  proof (cases "create_index u1 ''userId'' ''idx_userId''")
    case (Inl e)
    then show ?thesis using Inr d1 by (simp add: ensure_indexes_def)
  next
    case Inr2: (Inr u2)
    have "docs u2 = docs u1" by (rule create_index_docs [OF Inr2])
    then show ?thesis using Inr Inr2 d1 by (simp add: ensure_indexes_def)
  qed
qed

lemma main_state:
  "fst (snd (main ul bc a w users)) =
     (case get_client w of Inl e \<Rightarrow> users | Inr client \<Rightarrow> fst (ensure_indexes users))"
  by (simp add: main_def main_doc_def update_one_rejected Let_def
      split: sum.splits prod.splits option.splits)

lemma main_docs: "docs (fst (snd (main ul bc a w users))) = docs users"
  by (cases "get_client w") (simp_all add: main_state ensure_indexes_docs)

text \<open>
  C2. For every input, the one \<open>update_one\<close> call of \<open>main\<close> names the field \<open>userId\<close>
  both under \<open>$set\<close> (through the whole document) and under \<open>$setOnInsert\<close>. The store
  refuses an update in which two operators name the same path, so it rejects this call
  as conflicting whatever the arguments, the collection and the outside world are: the
  run never reaches its last line, and it leaves the stored documents as they were.
\<close>

theorem upsert_always_rejected:
  "List.member (map fst (operator_fields ''$set''
       (upsert_update (main_doc ul bc a w) (resolve_user_id (user_id a) (uuid4_hex w))))) ''userId''
   \<and> List.member (map fst (operator_fields ''$setOnInsert''
       (upsert_update (main_doc ul bc a w) (resolve_user_id (user_id a) (uuid4_hex w))))) ''userId''
   \<and> conflicting (upsert_update (main_doc ul bc a w) (resolve_user_id (user_id a) (uuid4_hex w)))
   \<and> update_one users oid (upsert_filter (main_doc ul bc a w))
        (upsert_update (main_doc ul bc a w) (resolve_user_id (user_id a) (uuid4_hex w))) True
       = Inl (WriteError 40 ''ConflictingUpdateOperators'')
   \<and> snd (snd (main ul bc a w users)) =
       (case get_client w of
          Inl e \<Rightarrow> Some e
        | Inr client \<Rightarrow>
            (case snd (ensure_indexes users) of
               Some e \<Rightarrow> Some e
             | None \<Rightarrow> Some (WriteError 40 ''ConflictingUpdateOperators'')))
   \<and> snd (snd (main ul bc a w users)) \<noteq> None
   \<and> docs (fst (snd (main ul bc a w users))) = docs users"
proof -
  have m1: "List.member (map fst (operator_fields ''$set''
       (upsert_update (main_doc ul bc a w) (resolve_user_id (user_id a) (uuid4_hex w))))) ''userId''"
    by (simp add: operator_fields_def upsert_update_def main_doc_def build_doc_keys)
  have m2: "List.member (map fst (operator_fields ''$setOnInsert''
       (upsert_update (main_doc ul bc a w) (resolve_user_id (user_id a) (uuid4_hex w))))) ''userId''"
    by (simp add: operator_fields_def upsert_update_def)
  have c: "conflicting (upsert_update (main_doc ul bc a w) (resolve_user_id (user_id a) (uuid4_hex w)))"
    unfolding main_doc_def by (rule upsert_update_conflicting)
  have u: "update_one users oid (upsert_filter (main_doc ul bc a w))
        (upsert_update (main_doc ul bc a w) (resolve_user_id (user_id a) (uuid4_hex w))) True
       = Inl (WriteError 40 ''ConflictingUpdateOperators'')"
    unfolding main_doc_def by (rule update_one_rejected)
  have e: "snd (snd (main ul bc a w users)) \<noteq> None"
    by (simp add: main_error split: sum.splits option.splits)
  show ?thesis using m1 m2 c u e main_error [of ul bc a w users] main_docs [of ul bc a w users]
    by blast
qed


lemma create_index_empty:
  "create_index \<lparr>docs = [], unique_indexes = ixs\<rparr> f n =
     Inr \<lparr>docs = [], unique_indexes = (if List.member ixs (n, f) then ixs else ixs @ [(n, f)])\<rparr>"
  by (simp add: create_index_def unique_ok_def)

lemma get_client_set:
  "get_client (w\<lparr>MONGODB_URI := Some (c # cs)\<rparr>) = Inr (c # cs)"
  by (simp add: get_client_def truthy_def)

lemma apply_on_match_field:
  "map_of (apply_on_match (upsert_update doc uid) d) k =
     (case map_of (rev doc) k of Some v \<Rightarrow> Some v | None \<Rightarrow> map_of d k)"
  by (simp add: apply_on_match_def operator_fields_def upsert_update_def set_fields_map_of)

text \<open>
  C1. The claim is that a second run with the same email leaves \<open>userId\<close> and \<open>createdAt\<close>
  of the stored record unchanged, advances \<open>updatedAt\<close> only, and that two runs leave
  exactly one record. The code does not do that. Evaluated on an empty collection, with
  the connection string set: the first run creates the two indexes and is then rejected
  by the store, the second run is rejected as well, and the collection holds no document
  after either. Moreover the \<open>$set\<close> payload of a run carries that run's \<open>createdAt\<close>
  and \<open>userId\<close>, so applied to a stored document it would overwrite both.
\<close>

theorem rerun_stores_no_record:
  "main ul bc a (w\<lparr>MONGODB_URI := Some ''mongodb+srv://seed''\<rparr>) \<lparr>docs = [], unique_indexes = []\<rparr>
     = (snd (starred_loop (starred a) [] []),
        \<lparr>docs = [], unique_indexes = [(''uniq_email'', ''email''), (''idx_userId'', ''userId'')]\<rparr>,
        Some (WriteError 40 ''ConflictingUpdateOperators''))
   \<and> main ul bc a (w'\<lparr>MONGODB_URI := Some ''mongodb+srv://seed''\<rparr>)
        \<lparr>docs = [], unique_indexes = [(''uniq_email'', ''email''), (''idx_userId'', ''userId'')]\<rparr>
     = (snd (starred_loop (starred a) [] []),
        \<lparr>docs = [], unique_indexes = [(''uniq_email'', ''email''), (''idx_userId'', ''userId'')]\<rparr>,
        Some (WriteError 40 ''ConflictingUpdateOperators''))
   \<and> map_of (apply_on_match (upsert_update (main_doc ul bc a w') uid) d) ''createdAt''
       = Some (BDate (utcnow w'))
   \<and> map_of (apply_on_match (upsert_update (main_doc ul bc a w') uid) d) ''userId''
       = Some (BStr (resolve_user_id (user_id a) (uuid4_hex w')))"
proof -
  have r1: "main ul bc a (w\<lparr>MONGODB_URI := Some ''mongodb+srv://seed''\<rparr>) \<lparr>docs = [], unique_indexes = []\<rparr>
     = (snd (starred_loop (starred a) [] []),
        \<lparr>docs = [], unique_indexes = [(''uniq_email'', ''email''), (''idx_userId'', ''userId'')]\<rparr>,
        Some (WriteError 40 ''ConflictingUpdateOperators''))" for w
    by (simp add: main_def get_client_set ensure_indexes_def create_index_empty
        main_doc_def update_one_rejected)
  have r2: "main ul bc a (w\<lparr>MONGODB_URI := Some ''mongodb+srv://seed''\<rparr>)
        \<lparr>docs = [], unique_indexes = [(''uniq_email'', ''email''), (''idx_userId'', ''userId'')]\<rparr>
     = (snd (starred_loop (starred a) [] []),
        \<lparr>docs = [], unique_indexes = [(''uniq_email'', ''email''), (''idx_userId'', ''userId'')]\<rparr>,
        Some (WriteError 40 ''ConflictingUpdateOperators''))" for w
    by (simp add: main_def get_client_set ensure_indexes_def create_index_empty
        main_doc_def update_one_rejected)
  have f1: "map_of (apply_on_match (upsert_update (main_doc ul bc a w') uid) d) ''createdAt''
       = Some (BDate (utcnow w'))"
    by (simp add: apply_on_match_field main_doc_def build_doc_def)
  have f2: "map_of (apply_on_match (upsert_update (main_doc ul bc a w') uid) d) ''userId''
       = Some (BStr (resolve_user_id (user_id a) (uuid4_hex w')))"
    by (simp add: apply_on_match_field main_doc_def build_doc_def)
  show ?thesis using r1 [of w] r2 [of w'] f1 f2 by blast
qed

text \<open>
  C10. For every input, the assembled document fixes \<open>suggested_num\<close> to 0 and
  \<open>messages\<close> to the empty list, and the whole document is the \<open>$set\<close> payload of the
  upsert, while \<open>$setOnInsert\<close> holds \<open>userId\<close> only. Applied to any stored document,
  the payload therefore resets \<open>suggested_num\<close> and \<open>messages\<close> to these defaults and
  replaces \<open>blocked_users\<close> and \<open>premade_messages\<close> by the values of the current run,
  whatever was stored.
\<close>

theorem update_resets_defaults:
  "map_of (main_doc ul bc a w) ''suggested_num'' = Some (BInt 0)
   \<and> map_of (main_doc ul bc a w) ''messages'' = Some (BArr [])
   \<and> operator_fields ''$set'' (upsert_update (main_doc ul bc a w) uid) = main_doc ul bc a w
   \<and> operator_fields ''$setOnInsert'' (upsert_update (main_doc ul bc a w) uid) = [(''userId'', BStr uid)]
   \<and> map_of (apply_on_match (upsert_update (main_doc ul bc a w) uid) d) ''suggested_num''
       = Some (BInt 0)
   \<and> map_of (apply_on_match (upsert_update (main_doc ul bc a w) uid) d) ''messages''
       = Some (BArr [])
   \<and> map_of (apply_on_match (upsert_update (main_doc ul bc a w) uid) d) ''blocked_users''
       = Some (BArr (map BStr (blocked a)))
   \<and> map_of (apply_on_match (upsert_update (main_doc ul bc a w) uid) d) ''premade_messages''
       = Some (BArr (map BStr (premade a)))"
proof -
  have a1: "map_of (main_doc ul bc a w) ''suggested_num'' = Some (BInt 0)"
    by (simp add: main_doc_def build_doc_def)
  have a2: "map_of (main_doc ul bc a w) ''messages'' = Some (BArr [])"
    by (simp add: main_doc_def build_doc_def)
  have a3: "operator_fields ''$set'' (upsert_update (main_doc ul bc a w) uid) = main_doc ul bc a w"
    by (simp add: operator_fields_def upsert_update_def)
  have a4: "operator_fields ''$setOnInsert'' (upsert_update (main_doc ul bc a w) uid) = [(''userId'', BStr uid)]"
    by (simp add: operator_fields_def upsert_update_def)
  have b1: "map_of (apply_on_match (upsert_update (main_doc ul bc a w) uid) d) ''suggested_num''
       = Some (BInt 0)"
    by (simp add: apply_on_match_field main_doc_def build_doc_def)
  have b2: "map_of (apply_on_match (upsert_update (main_doc ul bc a w) uid) d) ''messages''
       = Some (BArr [])"
    by (simp add: apply_on_match_field main_doc_def build_doc_def)
  have b3: "map_of (apply_on_match (upsert_update (main_doc ul bc a w) uid) d) ''blocked_users''
       = Some (BArr (map BStr (blocked a)))"
    by (simp add: apply_on_match_field main_doc_def build_doc_def)
  have b4: "map_of (apply_on_match (upsert_update (main_doc ul bc a w) uid) d) ''premade_messages''
       = Some (BArr (map BStr (premade a)))"
    by (simp add: apply_on_match_field main_doc_def build_doc_def)
  show ?thesis using a1 a2 a3 a4 b1 b2 b3 b4 by blast
qed

lemma upsert_filter_build_doc:
  "upsert_filter (build_doc ul a now uid pw st) = [(''email'', BStr (str_lower ul (email a)))]"
  by (simp add: upsert_filter_def build_doc_def)

lemma lower_char_case_variant:
  assumes "case_variant c d"
  shows "lower_char c = lower_char d"
proof -
  define m where "m = (of_char c :: nat)"
  define n where "n = (of_char d :: nat)"
  have c: "c = char_of m" and d: "d = char_of n" by (simp_all add: m_def n_def)
  have "c = d \<or> (65 \<le> m \<and> m \<le> 90 \<and> n = m + 32) \<or> (65 \<le> n \<and> n \<le> 90 \<and> m = n + 32)"
    using assms unfolding case_variant_def Let_def m_def n_def .
  moreover have "lower_char c = (if 65 \<le> m \<and> m \<le> 90 then char_of (m + 32) else char_of m)"
    unfolding lower_char_def Let_def m_def by simp
  moreover have "lower_char d = (if 65 \<le> n \<and> n \<le> 90 then char_of (n + 32) else char_of n)"
    unfolding lower_char_def Let_def n_def by simp
  ultimately show ?thesis by auto
qed

lemma is_ascii_case_variant:
  "case_variant c d \<Longrightarrow> is_ascii c = is_ascii d"
  unfolding case_variant_def is_ascii_def Let_def by auto

text \<open>On ASCII emails \<open>str_lower\<close> gives case variants the same key.\<close>

lemma str_lower_case_variants:
  "list_all2 case_variant e1 e2 \<Longrightarrow> list_all is_ascii e1 \<Longrightarrow> str_lower ul e1 = str_lower ul e2"
proof (induction e1 e2 rule: list_all2_induct)
  case Nil
  show ?case by simp
next
  case (Cons c e1 d e2)
  have a1: "list_all is_ascii e1" and ac: "is_ascii c" using Cons.prems by simp_all
  have ad: "is_ascii d" using is_ascii_case_variant [OF Cons.hyps(1)] ac by simp
  have ih: "str_lower ul e1 = str_lower ul e2" using Cons.IH a1 by simp
  have a2: "list_all is_ascii e2"
    using Cons.hyps(2) a1 by (induction rule: list_all2_induct) (auto simp: is_ascii_case_variant)
  show ?case
    using ih a1 a2 ac ad lower_char_case_variant [OF Cons.hyps(1)]
    by (simp add: str_lower_def ascii_lower_def)
qed

lemma main_first_run:
  "main ul bc a (w\<lparr>MONGODB_URI := Some ''mongodb+srv://seed''\<rparr>) \<lparr>docs = [], unique_indexes = []\<rparr>
     = (snd (starred_loop (starred a) [] []),
        \<lparr>docs = [], unique_indexes = [(''uniq_email'', ''email''), (''idx_userId'', ''userId'')]\<rparr>,
        Some (WriteError 40 ''ConflictingUpdateOperators''))"
  by (simp add: main_def get_client_set ensure_indexes_def create_index_empty
      main_doc_def update_one_rejected)

lemma main_second_run:
  "main ul bc a (w\<lparr>MONGODB_URI := Some ''mongodb+srv://seed''\<rparr>)
        \<lparr>docs = [], unique_indexes = [(''uniq_email'', ''email''), (''idx_userId'', ''userId'')]\<rparr>
     = (snd (starred_loop (starred a) [] []),
        \<lparr>docs = [], unique_indexes = [(''uniq_email'', ''email''), (''idx_userId'', ''userId'')]\<rparr>,
        Some (WriteError 40 ''ConflictingUpdateOperators''))"
  by (simp add: main_def get_client_set ensure_indexes_def create_index_empty
      main_doc_def update_one_rejected)

lemma str_lower_example:
  "str_lower ul ''A@x.com'' = ''a@x.com''" "str_lower ul ''a@x.com'' = ''a@x.com''"
proof -
  have a: "list_all is_ascii ''A@x.com''" "list_all is_ascii ''a@x.com''"
    by (simp_all add: is_ascii_def)
  have l: "ascii_lower ''A@x.com'' = ''a@x.com''" "ascii_lower ''a@x.com'' = ''a@x.com''"
    by code_simp+
  show "str_lower ul ''A@x.com'' = ''a@x.com''" "str_lower ul ''a@x.com'' = ''a@x.com''"
    using a l by (simp_all add: str_lower_def)
qed

text \<open>
  C6. The claim is that two runs whose emails differ only in letter case normalize the
  email to lowercase for the key comparison and so target the same stored record, one
  record per normalized email. The code lowers the email: the runs with \<open>A@x.com\<close> and
  with \<open>a@x.com\<close> both carry the key filter \<open>{"email": "a@x.com"}\<close>. But neither run
  stores or reaches a record: evaluated on an empty collection, with the connection string
  set, the first run creates the two indexes and is rejected by the store, the second
  run is rejected as well, and the collection holds no document for \<open>a@x.com\<close> after
  either.
\<close>

theorem case_variant_runs_store_no_record:
  "upsert_filter (main_doc ul bc (a\<lparr>email := ''A@x.com''\<rparr>) w) = [(''email'', BStr ''a@x.com'')]
   \<and> upsert_filter (main_doc ul bc (a\<lparr>email := ''a@x.com''\<rparr>) w') = [(''email'', BStr ''a@x.com'')]
   \<and> main ul bc (a\<lparr>email := ''A@x.com''\<rparr>) (w\<lparr>MONGODB_URI := Some ''mongodb+srv://seed''\<rparr>)
        \<lparr>docs = [], unique_indexes = []\<rparr>
     = (snd (starred_loop (starred a) [] []),
        \<lparr>docs = [], unique_indexes = [(''uniq_email'', ''email''), (''idx_userId'', ''userId'')]\<rparr>,
        Some (WriteError 40 ''ConflictingUpdateOperators''))
   \<and> main ul bc (a\<lparr>email := ''a@x.com''\<rparr>) (w'\<lparr>MONGODB_URI := Some ''mongodb+srv://seed''\<rparr>)
        \<lparr>docs = [], unique_indexes = [(''uniq_email'', ''email''), (''idx_userId'', ''userId'')]\<rparr>
     = (snd (starred_loop (starred a) [] []),
        \<lparr>docs = [], unique_indexes = [(''uniq_email'', ''email''), (''idx_userId'', ''userId'')]\<rparr>,
        Some (WriteError 40 ''ConflictingUpdateOperators''))"
proof -
  have f1: "upsert_filter (main_doc ul bc (a\<lparr>email := ''A@x.com''\<rparr>) w) = [(''email'', BStr ''a@x.com'')]"
    by (simp add: main_doc_def upsert_filter_build_doc str_lower_example)
  have f2: "upsert_filter (main_doc ul bc (a\<lparr>email := ''a@x.com''\<rparr>) w') = [(''email'', BStr ''a@x.com'')]"
    by (simp add: main_doc_def upsert_filter_build_doc str_lower_example)
  show ?thesis
    using f1 f2 main_first_run [of ul bc "a\<lparr>email := ''A@x.com''\<rparr>" w]
      main_second_run [of ul bc "a\<lparr>email := ''a@x.com''\<rparr>" w']
    by simp
qed

text \<open>
  C8, as stated, fails: with no \<open>--pfp-url\<close> the document still carries the key \<open>pfp\<close>,
  a descriptor whose two fields are both null.
\<close>

theorem pfp_null_descriptor_counterexample:
  "pfp_url example_args = None
   \<and> map_of (build_doc id example_args 0 ''usr_0123456789ab'' ''hash'' []) ''pfp''
       = Some (BDoc [(''url'', BNull), (''storage'', BNull)])"
  by (simp add: example_args_def build_doc_def str_or_none_def truthy_def)

text \<open>
  C8, amended. The assembled document always carries a profile-image descriptor, a pair
  of fields \<open>url\<close> and \<open>storage\<close>: when no URL is supplied both fields are null; when a
  non-empty URL is supplied \<open>url\<close> is that URL and \<open>storage\<close> is \<open>"url"\<close>; when the
  empty string is supplied \<open>url\<close> is the empty string and \<open>storage\<close> is null.
\<close>

theorem pfp_descriptor_always_present:
  "map_of (build_doc ul a now uid pw st) ''pfp'' \<noteq> None
   \<and> (pfp_url a = None \<longrightarrow>
        map_of (build_doc ul a now uid pw st) ''pfp''
          = Some (BDoc [(''url'', BNull), (''storage'', BNull)]))
   \<and> (\<forall>u. pfp_url a = Some u \<and> u \<noteq> [] \<longrightarrow>
        map_of (build_doc ul a now uid pw st) ''pfp''
          = Some (BDoc [(''url'', BStr u), (''storage'', BStr ''url'')]))
   \<and> (pfp_url a = Some [] \<longrightarrow>
        map_of (build_doc ul a now uid pw st) ''pfp''
          = Some (BDoc [(''url'', BStr []), (''storage'', BNull)]))"
  by (simp add: build_doc_def str_or_none_def truthy_def)

theorem pfp_descriptor_always_present_witness:
  "map_of (build_doc id example_args 0 ''usr_0123456789ab'' ''hash'' []) ''pfp''
       = Some (BDoc [(''url'', BNull), (''storage'', BNull)])
   \<and> map_of (build_doc id (example_args\<lparr>pfp_url := Some ''https://example.com/p.png''\<rparr>)
        0 ''usr_0123456789ab'' ''hash'' []) ''pfp''
       = Some (BDoc [(''url'', BStr ''https://example.com/p.png''), (''storage'', BStr ''url'')])"
proof -
  have n: "pfp_url example_args = None" by (simp add: example_args_def)
  have s: "pfp_url (example_args\<lparr>pfp_url := Some ''https://example.com/p.png''\<rparr>)
      = Some ''https://example.com/p.png'' \<and> ''https://example.com/p.png'' \<noteq> []"
    by simp
  show ?thesis
    using n s
      pfp_descriptor_always_present [of id example_args 0 "''usr_0123456789ab''" "''hash''" "[]"]
      pfp_descriptor_always_present [of id "example_args\<lparr>pfp_url := Some ''https://example.com/p.png''\<rparr>"
        0 "''usr_0123456789ab''" "''hash''" "[]"]
    by blast
qed

text \<open>
  C9, as stated, fails: \<open>--user-id ""\<close> supplies a value, the empty string, and the
  resolved identifier is not that value but a synthesized one.
\<close>

theorem empty_user_id_counterexample:
  "resolve_user_id (Some []) ''0123456789abcdef0123456789abcdef'' = ''usr_0123456789ab''
   \<and> resolve_user_id (Some []) ''0123456789abcdef0123456789abcdef'' \<noteq> []"
  by (simp add: resolve_user_id_def truthy_def)

text \<open>
  C9, amended. The resolved application identifier equals the caller-supplied value when
  one is given and is not the empty string; otherwise (none given, or the empty string)
  it is the prefix \<open>usr_\<close> followed by the first 12 hexadecimal digits of a fresh
  \<open>uuid4\<close>. It is the \<open>userId\<close> field of the assembled document.
\<close>

theorem resolve_user_id_cases:
  "(\<forall>u. given = Some u \<and> u \<noteq> [] \<longrightarrow> resolve_user_id given hex = u)
   \<and> (given = None \<or> given = Some [] \<longrightarrow>
        resolve_user_id given hex = ''usr_'' @ take 12 hex
        \<and> take 4 (resolve_user_id given hex) = ''usr_'')
   \<and> map_of (main_doc ul bc a w) ''userId''
       = Some (BStr (resolve_user_id (user_id a) (uuid4_hex w)))"
  by (auto simp: resolve_user_id_def truthy_def main_doc_def build_doc_def)

theorem resolve_user_id_cases_witness:
  "resolve_user_id (Some ''usr_forced'') ''0123456789abcdef0123456789abcdef'' = ''usr_forced''
   \<and> resolve_user_id None ''0123456789abcdef0123456789abcdef'' = ''usr_0123456789ab''"
proof -
  have a: "Some ''usr_forced'' = Some ''usr_forced'' \<and> ''usr_forced'' \<noteq> []" by simp
  have b: "''usr_'' @ take 12 ''0123456789abcdef0123456789abcdef'' = ''usr_0123456789ab''" by simp
  show ?thesis
    using a b
      resolve_user_id_cases [of "Some ''usr_forced''" "''0123456789abcdef0123456789abcdef''"]
      resolve_user_id_cases [of None "''0123456789abcdef0123456789abcdef''"]
    by (metis (no_types))
qed

section \<open>Properties of the sequence counter and the card insert\<close>

lemma next_seq_value:
  "fst (next_seq d name) = (if stored_seq d name = - 1 then 1 else stored_seq d name + 1)"
  by (auto simp: next_seq_def find_one_and_update_inc_def stored_seq_def Let_def
      split: option.splits)

lemma next_seq_counters:
  "counters_coll (snd (next_seq d name)) = (counters_coll d)(name \<mapsto> stored_seq d name + 1)"
  by (simp add: next_seq_def find_one_and_update_inc_def stored_seq_def Let_def
      split: option.splits)

lemma next_seq_cards: "uploadedCards (snd (next_seq d name)) = uploadedCards d"
  by (simp add: next_seq_def Let_def)

lemma next_seq_stored:
  "stored_seq (snd (next_seq d name)) name = stored_seq d name + 1"
  by (simp add: stored_seq_def [of "snd (next_seq d name)"] next_seq_counters)

lemma next_seq_calls_range:
  "0 \<le> stored_seq d name \<Longrightarrow>
     fst (next_seq_calls n d name) = [stored_seq d name + 1 .. stored_seq d name + int n]"
proof (induction n arbitrary: d)
  case 0
  show ?case by simp
next
  case (Suc n)
  let ?d' = "snd (next_seq d name)"
  have s: "stored_seq ?d' name = stored_seq d name + 1" by (rule next_seq_stored)
  then have "0 \<le> stored_seq ?d' name" using Suc.prems by simp
  then have ih: "fst (next_seq_calls n ?d' name) = [stored_seq d name + 1 + 1 .. stored_seq d name + 1 + int n]"
    using Suc.IH [of ?d'] s by simp
  have v: "fst (next_seq d name) = stored_seq d name + 1"
    using Suc.prems by (simp add: next_seq_value)
  have "[stored_seq d name + 1 .. stored_seq d name + int (Suc n)]
      = (stored_seq d name + 1) # [stored_seq d name + 1 + 1 .. stored_seq d name + 1 + int n]"
    by (subst upto_rec1) (simp_all add: add.commute add.left_commute)
  then show ?case using ih v by (simp add: Let_def)
qed

lemma card_main_eq:
  "card_main w d =
     \<lparr>counters_coll = (counters_coll d)(''uploadedCards'' \<mapsto> stored_seq d ''uploadedCards'' + 1),
      uploadedCards = uploadedCards d @
        [card_doc (fst (next_seq d ''uploadedCards'')) (utcnow w) @ [(''_id'', BOid (next_oid w))]]\<rparr>"
  by (simp add: card_main_def Let_def insert_one_def next_seq_counters next_seq_cards card_doc_def)

lemma card_main_stored:
  "stored_seq (card_main w d) ''uploadedCards'' = stored_seq d ''uploadedCards'' + 1"
  by (simp add: card_main_eq stored_seq_def split: option.splits)

lemma perform_nonneg:
  assumes "\<And>name. 0 \<le> stored_seq d name"
  shows "0 \<le> stored_seq (perform c d) name"
proof (cases c)
  case (NextSeq m)
  have "stored_seq (snd (next_seq d m)) name = (if name = m then stored_seq d m + 1 else stored_seq d name)"
    by (simp add: stored_seq_def [of "snd (next_seq d m)"] next_seq_counters)
      (simp add: stored_seq_def)
  then show ?thesis using NextSeq assms [of m] assms [of name] by simp
next
  case (CardMain w)
  have "stored_seq (card_main w d) name
      = (if name = ''uploadedCards'' then stored_seq d ''uploadedCards'' + 1 else stored_seq d name)"
    by (simp add: stored_seq_def [of "card_main w d"] card_main_eq) (simp add: stored_seq_def)
  then show ?thesis using CardMain assms [of "''uploadedCards''"] assms [of name] by simp
qed

lemma run_calls_nonneg:
  "(\<And>name. 0 \<le> stored_seq d name) \<Longrightarrow> 0 \<le> stored_seq (run_calls cs d) name"
proof (induction cs arbitrary: d name)
  case Nil
  then show ?case by simp
next
  case (Cons c cs)
  show ?case using Cons.IH [of "perform c d" name] perform_nonneg [of d c] Cons.prems by simp
qed

lemma fresh_db_stored: "stored_seq (fresh_db cards) name = 0"
  by (simp add: fresh_db_def stored_seq_def)

lemma reached_nonneg: "0 \<le> stored_seq (run_calls cs (fresh_db cards)) name"
  by (rule run_calls_nonneg) (simp add: fresh_db_stored)

text \<open>
  C3. For every counter name, on every database the scripts can have produced (any list
  of \<open>next_seq\<close> calls and card-script runs on a database without counters), \<open>next_seq\<close>
  adds one to the stored value in one operation of the store, creating the counter at 0
  if it is absent, and returns the post-increment value; \<open>n\<close> calls one after the other
  for the same name return \<open>n\<close> distinct integers, the contiguous range from the stored
  value plus 1 to the stored value plus \<open>n\<close>, with no duplicate and no gap. On a fresh
  counter the first call returns 1 and \<open>n\<close> calls return 1 to \<open>n\<close>.
\<close>

theorem next_seq_contiguous:
  "counters_coll (snd (next_seq (run_calls cs (fresh_db cards)) name)) name
       = Some (stored_seq (run_calls cs (fresh_db cards)) name + 1)
   \<and> fst (next_seq (run_calls cs (fresh_db cards)) name)
       = stored_seq (run_calls cs (fresh_db cards)) name + 1
   \<and> fst (next_seq_calls n (run_calls cs (fresh_db cards)) name)
       = [stored_seq (run_calls cs (fresh_db cards)) name + 1 ..
          stored_seq (run_calls cs (fresh_db cards)) name + int n]
   \<and> distinct (fst (next_seq_calls n (run_calls cs (fresh_db cards)) name))
   \<and> length (fst (next_seq_calls n (run_calls cs (fresh_db cards)) name)) = n
   \<and> counters_coll (fresh_db cards) name = None
   \<and> counters_coll (snd (next_seq (fresh_db cards) name)) name = Some 1
   \<and> fst (next_seq (fresh_db cards) name) = 1
   \<and> fst (next_seq_calls n (fresh_db cards) name) = [1 .. int n]"
proof -
  let ?d = "run_calls cs (fresh_db cards)"
  have nn: "0 \<le> stored_seq ?d name" by (rule reached_nonneg)
  have a: "counters_coll (snd (next_seq ?d name)) name = Some (stored_seq ?d name + 1)"
    by (simp add: next_seq_counters)
  have b: "fst (next_seq ?d name) = stored_seq ?d name + 1"
    using nn by (simp add: next_seq_value)
  have c: "fst (next_seq_calls n ?d name) = [stored_seq ?d name + 1 .. stored_seq ?d name + int n]"
    using nn by (rule next_seq_calls_range)
  have d: "distinct (fst (next_seq_calls n ?d name))" by (simp add: c)
  have e: "length (fst (next_seq_calls n ?d name)) = n" by (simp add: c)
  have f: "counters_coll (fresh_db cards) name = None" by (simp add: fresh_db_def)
  have g: "counters_coll (snd (next_seq (fresh_db cards) name)) name = Some 1"
    by (simp add: next_seq_counters fresh_db_stored)
  have h: "fst (next_seq (fresh_db cards) name) = 1"
    by (simp add: next_seq_value fresh_db_stored)
  have i: "fst (next_seq_calls n (fresh_db cards) name) = [1 .. int n]"
    using next_seq_calls_range [of "fresh_db cards" name n] by (simp add: fresh_db_stored)
  show ?thesis using a b c d e f g h i by blast
qed

text \<open>
  C4. Three runs of the card script one after the other, on a database in which the
  counter \<open>uploadedCards\<close> does not exist yet, append three documents whose \<open>id\<close> fields
  are 1, 2, 3 in this order, whatever the clock and the \<open>_id\<close> values of the three runs
  and whatever cards were stored before; the ids come from the counter \<open>uploadedCards\<close>,
  which holds 3 afterwards.
\<close>

theorem three_card_runs:
  assumes "counters_coll d ''uploadedCards'' = None"
  shows "uploadedCards (card_runs [w1, w2, w3] d) =
       uploadedCards d @
         [card_doc 1 (utcnow w1) @ [(''_id'', BOid (next_oid w1))],
          card_doc 2 (utcnow w2) @ [(''_id'', BOid (next_oid w2))],
          card_doc 3 (utcnow w3) @ [(''_id'', BOid (next_oid w3))]]
   \<and> map (\<lambda>c. map_of c ''id'')
         (drop (length (uploadedCards d)) (uploadedCards (card_runs [w1, w2, w3] d)))
       = [Some (BInt 1), Some (BInt 2), Some (BInt 3)]
   \<and> counters_coll (card_runs [w1, w2, w3] d) = (counters_coll d)(''uploadedCards'' \<mapsto> 3)"
proof -
  have z: "stored_seq d ''uploadedCards'' = 0" using assms by (simp add: stored_seq_def)
  let ?d1 = "card_main w1 d"
  have s1: "stored_seq ?d1 ''uploadedCards'' = 1"
    by (simp add: card_main_stored z)
  let ?d2 = "card_main w2 ?d1"
  have s2: "stored_seq ?d2 ''uploadedCards'' = 2"
    by (simp add: card_main_stored z)
  have v1: "fst (next_seq d ''uploadedCards'') = 1" by (simp add: next_seq_value z)
  have v2: "fst (next_seq ?d1 ''uploadedCards'') = 2" by (simp add: next_seq_value s1)
  have v3: "fst (next_seq ?d2 ''uploadedCards'') = 3" by (simp add: next_seq_value s2)
  have e1: "?d1 = \<lparr>counters_coll = (counters_coll d)(''uploadedCards'' \<mapsto> 1),
      uploadedCards = uploadedCards d @ [card_doc 1 (utcnow w1) @ [(''_id'', BOid (next_oid w1))]]\<rparr>"
    by (simp add: card_main_eq [of w1 d] z v1)
  have e2: "?d2 = \<lparr>counters_coll = (counters_coll d)(''uploadedCards'' \<mapsto> 2),
      uploadedCards = uploadedCards d @ [card_doc 1 (utcnow w1) @ [(''_id'', BOid (next_oid w1))],
         card_doc 2 (utcnow w2) @ [(''_id'', BOid (next_oid w2))]]\<rparr>"
    by (simp add: card_main_eq [of w2 ?d1] s1 v2) (simp add: e1)
  have e3: "card_main w3 ?d2 = \<lparr>counters_coll = (counters_coll d)(''uploadedCards'' \<mapsto> 3),
      uploadedCards = uploadedCards d @ [card_doc 1 (utcnow w1) @ [(''_id'', BOid (next_oid w1))],
         card_doc 2 (utcnow w2) @ [(''_id'', BOid (next_oid w2))],
         card_doc 3 (utcnow w3) @ [(''_id'', BOid (next_oid w3))]]\<rparr>"
    by (simp add: card_main_eq [of w3 ?d2] s2 v3) (simp add: e2)
  have r: "card_runs [w1, w2, w3] d = card_main w3 ?d2" by simp
  show ?thesis unfolding r e3 by (simp add: card_doc_def)
qed

theorem three_card_runs_witness:
  "map (\<lambda>c. map_of c ''id'')
     (uploadedCards (card_runs
        [\<lparr>MONGODB_URI = None, MONGO_URI = None, utcnow = 10, uuid4_hex = [], urandom = [],
          next_oid = ObjectId [1]\<rparr>,
         \<lparr>MONGODB_URI = None, MONGO_URI = None, utcnow = 20, uuid4_hex = [], urandom = [],
          next_oid = ObjectId [2]\<rparr>,
         \<lparr>MONGODB_URI = None, MONGO_URI = None, utcnow = 30, uuid4_hex = [], urandom = [],
          next_oid = ObjectId [3]\<rparr>]
        \<lparr>counters_coll = Map.empty, uploadedCards = []\<rparr>))
   = [Some (BInt 1), Some (BInt 2), Some (BInt 3)]"
proof -
  have n: "counters_coll \<lparr>counters_coll = Map.empty, uploadedCards = []\<rparr> ''uploadedCards'' = None"
    by simp
  show ?thesis
    using three_card_runs [OF n, of
        "\<lparr>MONGODB_URI = None, MONGO_URI = None, utcnow = 10, uuid4_hex = [], urandom = [],
          next_oid = ObjectId [1]\<rparr>"
        "\<lparr>MONGODB_URI = None, MONGO_URI = None, utcnow = 20, uuid4_hex = [], urandom = [],
          next_oid = ObjectId [2]\<rparr>"
        "\<lparr>MONGODB_URI = None, MONGO_URI = None, utcnow = 30, uuid4_hex = [], urandom = [],
          next_oid = ObjectId [3]\<rparr>"]
    by (simp add: card_doc_def)
qed

end
